theory Spec2Isabelle
  imports Main
begin

section \<open>A client for AWS Athena: query, poll, fetch, format\<close>

text \<open>
  The module \<open>athena.py\<close> has two classes. \<open>Athena\<close> starts a query and polls the
  service until its results can be read; \<open>AthenaResult\<close> fetches the paginated result,
  decodes it into rows of strings and formats them as a delimited string. The remote
  service is a parameter of the model; every remote call and every \<open>time.sleep\<close> is
  recorded in a trace, and Python list objects that escape a method live in a store, so
  that the in-place \<open>pop(0)\<close> of \<open>result\<close> acts on the object the field refers to.
\<close>

subsection \<open>The service's response data\<close>

text \<open>
  A page is \<open>{'ResultSet': {'Rows': [{'Data': [{'VarCharValue': ...}, ...]}, ...]}}\<close>.
  The key \<open>VarCharValue\<close> of a cell may be absent.
\<close>

record cell =
  VarCharValue :: "string option"

record row =
  Data :: "cell list"

record result_set =
  Rows :: "row list"

record page =
  ResultSet :: result_set

datatype error = ClientError string | IndexError

subsection \<open>The world: remote service, trace of effects, list objects\<close>

type_synonym addr = nat

type_synonym rows = "string list list"

datatype event =
    StartQueryExecution string string string
  | GetQueryResults string
  | Paginate string
  | PutObject string string string
  | Sleep nat

text \<open>
  The service answers a remote call according to the number of remote calls issued
  before it (\<open>ticks\<close>), so that a query can be unready at first and ready later.
  A paginated fetch either yields all its pages or raises.
\<close>

record service =
  start_query_execution :: "nat \<Rightarrow> string \<Rightarrow> string \<Rightarrow> string \<Rightarrow> error + string"
  get_query_results :: "nat \<Rightarrow> string \<Rightarrow> error + page"
  paginate :: "nat \<Rightarrow> string \<Rightarrow> error + page list"
  put_object :: "nat \<Rightarrow> string \<Rightarrow> string \<Rightarrow> string \<Rightarrow> error option"

record world =
  heap :: "addr \<Rightarrow> rows"
  next_addr :: addr
  ticks :: nat
  trace :: "event list"

definition remote_call :: "event \<Rightarrow> world \<Rightarrow> world" where
  "remote_call ev w = w\<lparr>ticks := ticks w + 1, trace := trace w @ [ev]\<rparr>"

definition sleep :: "nat \<Rightarrow> world \<Rightarrow> world" where
  "sleep n w = w\<lparr>trace := trace w @ [Sleep n]\<rparr>"

definition alloc :: "rows \<Rightarrow> world \<Rightarrow> addr \<times> world" where
  "alloc v w =
     (next_addr w, w\<lparr>heap := (heap w)(next_addr w := v), next_addr := next_addr w + 1\<rparr>)"

text \<open>\<open>xs.pop(0)\<close> on the list object at an address; the caller has checked it is not empty.\<close>

definition pop0 :: "addr \<Rightarrow> world \<Rightarrow> world" where
  "pop0 a w = w\<lparr>heap := (heap w)(a := tl (heap w a))\<rparr>"

subsection \<open>Class \<open>Athena\<close>\<close>

record athena =
  database :: string
  s3_path :: string

record athena_result =
  ar_database :: string
  query_id :: string
  ar_s3_path :: string
  results :: "addr option"
  results_str :: "string option"

definition endswith :: "string \<Rightarrow> string \<Rightarrow> bool" where
  "endswith s suffix = (length suffix \<le> length s \<and> drop (length s - length suffix) s = suffix)"

definition result_csv :: "string \<Rightarrow> string \<Rightarrow> string" where
  "result_csv s3_path' query_id' =
     (if endswith s3_path' ''/'' = False then s3_path' @ ''/'' else s3_path') @ query_id' @ ''.csv''"

definition AthenaResult_init :: "string \<Rightarrow> string \<Rightarrow> string \<Rightarrow> athena_result" where
  "AthenaResult_init database' query_id' s3_path' =
     \<lparr>ar_database = database', query_id = query_id',
      ar_s3_path = result_csv s3_path' query_id', results = None, results_str = None\<rparr>"

text \<open>
  The loop \<open>while True: try: get_query_results(...); break; except Exception: sleep(10)\<close>.
  It has no bound, so the model is a partial function: \<open>None\<close> is a loop that never exits.
\<close>

partial_function (option) poll :: "service \<Rightarrow> string \<Rightarrow> world \<Rightarrow> world option" where
  "poll svc qid w =
     (case get_query_results svc (ticks w) qid of
        Inr query_results \<Rightarrow> Some (remote_call (GetQueryResults qid) w)
      | Inl e \<Rightarrow> poll svc qid (sleep 10 (remote_call (GetQueryResults qid) w)))"

definition query :: "service \<Rightarrow> athena \<Rightarrow> string \<Rightarrow> world \<Rightarrow> ((error + athena_result) \<times> world) option" where
  "query svc self q w =
     (let w1 = remote_call (StartQueryExecution q (database self) (s3_path self)) w in
      case start_query_execution svc (ticks w) q (database self) (s3_path self) of
        Inl e \<Rightarrow> Some (Inl e, w1)
      | Inr qid \<Rightarrow>
          (case poll svc qid (sleep 3 w1) of
             None \<Rightarrow> None
           | Some w2 \<Rightarrow> Some (Inr (AthenaResult_init (database self) qid (s3_path self)), w2)))"

definition repair_table :: "service \<Rightarrow> athena \<Rightarrow> string \<Rightarrow> world \<Rightarrow> ((error + unit) \<times> world) option" where
  "repair_table svc self table w =
     (case query svc self (''MSCK REPAIR TABLE '' @ table) w of
        None \<Rightarrow> None
      | Some (Inl e, w') \<Rightarrow> Some (Inl e, w')
      | Some (Inr r, w') \<Rightarrow> Some (Inr (), w'))"

subsection \<open>Class \<open>AthenaResult\<close>\<close>

text \<open>\<open>e.get('VarCharValue', default)\<close>\<close>

definition get_VarCharValue :: "cell \<Rightarrow> string \<Rightarrow> string" where
  "get_VarCharValue e dflt = (case VarCharValue e of None \<Rightarrow> dflt | Some v \<Rightarrow> v)"

text \<open>
  The two nested \<open>for\<close> loops of \<open>result\<close>, each appending to a list that starts empty.
\<close>

definition decode_datum :: "cell list \<Rightarrow> string list" where
  "decode_datum d = foldl (\<lambda>datum e. datum @ [get_VarCharValue e '''']) [] d"

definition decode_data :: "cell list list \<Rightarrow> rows" where
  "decode_data data = foldl (\<lambda>final_data d. final_data @ [decode_datum d]) [] data"

text \<open>Lines 83 to 92: from the collected pages to \<open>final_data\<close>, before any row is removed.\<close>

definition final_data_of :: "page list \<Rightarrow> rows" where
  "final_data_of results' =
     (let result_sets = map (\<lambda>i. Rows (ResultSet i)) results';
          rows = concat (map (\<lambda>x. map (\<lambda>y. y) x) result_sets);
          data = map (\<lambda>row. Data row) rows
      in decode_data data)"

text \<open>
  \<open>result(self, header=True)\<close>: the argument \<open>header\<close> is not read anywhere in the body.
  The returned value is a reference to a list object; \<open>self.results\<close> is assigned the
  reference before the first row is popped from the object.
\<close>

definition result :: "service \<Rightarrow> athena_result \<Rightarrow> bool \<Rightarrow> world \<Rightarrow> (error + addr) \<times> athena_result \<times> world" where
  "result svc self header w =
     (let w1 = remote_call (GetQueryResults (query_id self)) w in
      case get_query_results svc (ticks w) (query_id self) of
        Inl e \<Rightarrow> (Inl e, self, w1)
      | Inr query_results \<Rightarrow>
          (let w2 = remote_call (Paginate (query_id self)) w1 in
           case paginate svc (ticks w1) (query_id self) of
             Inl e \<Rightarrow> (Inl e, self, w2)
           | Inr page_iterator \<Rightarrow>
               (let results' = foldl (\<lambda>acc page. acc @ [page]) [] page_iterator in
                if length results' = 0 then
                  (let (empty, w3) = alloc [] w2 in (Inr empty, self, w3))
                else
                  (let (final_data, w3) = alloc (final_data_of results') w2;
                       self' = self\<lparr>results := Some final_data\<rparr>;
                       w4 = (if length (heap w3 final_data) > 0 then pop0 final_data w3 else w3)
                   in (Inr final_data, self', w4)))))"

text \<open>\<open>sep.join(xs)\<close>\<close>

fun join :: "string \<Rightarrow> string list \<Rightarrow> string" where
  "join sep [] = []"
| "join sep [x] = x"
| "join sep (x # y # ys) = x @ sep @ join sep (y # ys)"

definition newline :: char where
  "newline = CHR 0x0A"

definition tab :: char where
  "tab = CHR 0x09"

definition to_string :: "service \<Rightarrow> athena_result \<Rightarrow> string \<Rightarrow> world \<Rightarrow> (error + string) \<times> athena_result \<times> world" where
  "to_string svc self delim w =
     (let fetched =
        (case results self of
           None \<Rightarrow>
             (case result svc self True w of
                (Inl e, self1, w1) \<Rightarrow> Inl (e, self1, w1)
              | (Inr r, self1, w1) \<Rightarrow> Inr (r, self1\<lparr>results := Some r\<rparr>, w1))
         | Some r \<Rightarrow> Inr (r, self, w))
      in case fetched of
           Inl (e, self1, w1) \<Rightarrow> (Inl e, self1, w1)
         | Inr (r, self1, w1) \<Rightarrow>
             (let lines = map (\<lambda>i. join delim i) (heap w1 r);
                  as_string = join [newline] lines @ [newline]
              in (Inr as_string, self1\<lparr>results_str := Some as_string\<rparr>, w1)))"

definition to_s3 :: "service \<Rightarrow> athena_result \<Rightarrow> string \<Rightarrow> string \<Rightarrow> world \<Rightarrow> (error + unit) \<times> athena_result \<times> world" where
  "to_s3 svc self bucket file_name w =
     (let computed =
        (case results_str self of
           None \<Rightarrow>
             (case to_string svc self [tab] w of
                (Inl e, self1, w1) \<Rightarrow> Inl (e, self1, w1)
              | (Inr s, self1, w1) \<Rightarrow> Inr (s, self1\<lparr>results_str := Some s\<rparr>, w1))
         | Some s \<Rightarrow> Inr (s, self, w))
      in case computed of
           Inl (e, self1, w1) \<Rightarrow> (Inl e, self1, w1)
         | Inr (body, self1, w1) \<Rightarrow>
             (case put_object svc (ticks w1) bucket file_name body of
                Some e \<Rightarrow> (Inl e, self1, remote_call (PutObject bucket file_name body) w1)
              | None \<Rightarrow> (Inr (), self1, remote_call (PutObject bucket file_name body) w1)))"

text \<open>
  \<open>_format_results(self, query_results, header=True)\<close>: a cell without \<open>VarCharValue\<close>
  is skipped (\<open>continue\<close>), and the first row is popped only when \<open>header == False\<close>;
  \<open>pop(0)\<close> on an empty list raises \<open>IndexError\<close>. No method of the module calls it.
\<close>

definition format_results :: "page \<Rightarrow> bool \<Rightarrow> error + rows" where
  "format_results query_results header =
     (let rows = Rows (ResultSet query_results);
          matrix = foldl (\<lambda>matrix r.
                      matrix @ [foldl (\<lambda>datum j.
                         (case VarCharValue j of None \<Rightarrow> datum | Some val \<Rightarrow> datum @ [val]))
                       [] (Data r)])
                    [] rows
      in if header = False then (if matrix = [] then Inl IndexError else Inr (tl matrix))
         else Inr matrix)"

subsection \<open>Notions used to state the properties\<close>

text \<open>
  Python's \<open>s.split(sep)\<close> for a separator of one character: the segments between the
  occurrences of the separator, so a string without it gives one segment, and the empty
  string gives one empty segment.
\<close>

fun py_split :: "char \<Rightarrow> string \<Rightarrow> string list" where
  "py_split c [] = [[]]"
| "py_split c (x # xs) =
     (if x = c then [] # py_split c xs
      else (case py_split c xs of [] \<Rightarrow> [[x]] | seg # segs \<Rightarrow> (x # seg) # segs))"

text \<open>
  Reading a delimited string back: split on the newline, drop the final segment, split
  each line on the delimiter.
\<close>

definition read_back :: "char \<Rightarrow> string \<Rightarrow> rows" where
  "read_back d out = map (py_split d) (butlast (py_split newline out))"

text \<open>The events of \<open>n\<close> failed readiness checks, each followed by its ten seconds of sleep.\<close>

definition retries :: "string \<Rightarrow> nat \<Rightarrow> event list" where
  "retries qid n = concat (replicate n [GetQueryResults qid, Sleep 10])"






subsection \<open>Concrete services and objects\<close>

definition mk_cell :: "string \<Rightarrow> cell" where
  "mk_cell s = \<lparr>VarCharValue = Some s\<rparr>"

definition mk_row :: "string list \<Rightarrow> row" where
  "mk_row r = \<lparr>Data = map mk_cell r\<rparr>"

definition mk_page :: "rows \<Rightarrow> page" where
  "mk_page rs = \<lparr>ResultSet = \<lparr>Rows = map mk_row rs\<rparr>\<rparr>"

text \<open>A service whose answers never change: the query is ready and has the given pages.\<close>

definition stable_service :: "page list \<Rightarrow> service" where
  "stable_service ps =
     \<lparr>start_query_execution = (\<lambda>t q db out. Inr ''q1''),
      get_query_results = (\<lambda>t qid. Inr (case ps of [] \<Rightarrow> mk_page [] | p # rest \<Rightarrow> p)),
      paginate = (\<lambda>t qid. Inr ps),
      put_object = (\<lambda>t bucket key body. None)\<rparr>"

text \<open>A service whose readiness check raises until \<open>ready_at\<close> remote calls have been made.\<close>

definition slow_service :: "nat \<Rightarrow> service" where
  "slow_service ready_at =
     \<lparr>start_query_execution = (\<lambda>t q db out. Inr ''q1''),
      get_query_results =
        (\<lambda>t qid. if t < ready_at then Inl (ClientError ''not ready'') else Inr (mk_page [])),
      paginate = (\<lambda>t qid. Inr []),
      put_object = (\<lambda>t bucket key body. None)\<rparr>"

text \<open>A service whose query has failed: the readiness check raises at every call.\<close>

definition failed_service :: service where
  "failed_service =
     \<lparr>start_query_execution = (\<lambda>t q db out. Inr ''q1''),
      get_query_results = (\<lambda>t qid. Inl (ClientError ''FAILED'')),
      paginate = (\<lambda>t qid. Inl (ClientError ''FAILED'')),
      put_object = (\<lambda>t bucket key body. None)\<rparr>"

definition world0 :: world where
  "world0 = \<lparr>heap = (\<lambda>a. []), next_addr = 0, ticks = 0, trace = []\<rparr>"

definition athena0 :: athena where
  "athena0 = \<lparr>database = ''default'', s3_path = ''s3://cmathenalogs/''\<rparr>"

definition ar0 :: athena_result where
  "ar0 = AthenaResult_init ''default'' ''q1'' ''s3://cmathenalogs/''"

text \<open>The two pages of the example: a header row and one data row, then one more data row.\<close>

definition two_pages :: "page list" where
  "two_pages = [mk_page [[''a'', ''b''], [''1'', ''2'']], mk_page [[''3'', ''4'']]]"

text \<open>A result with a header row and no data row.\<close>

definition header_only :: "page list" where
  "header_only = [mk_page [[''c'']]]"

text \<open>One column; the last data row has a cell without \<open>VarCharValue\<close>.\<close>

definition null_last :: "page list" where
  "null_last = [\<lparr>ResultSet = \<lparr>Rows = [mk_row [''c''], mk_row [''x''],
                                        \<lparr>Data = [\<lparr>VarCharValue = None\<rparr>]\<rparr>]\<rparr>\<rparr>]"

definition one_page :: "page list" where
  "one_page = [mk_page [[''a'', ''b''], [''1'', ''2'']]]"

text \<open>
  A service whose paginated fetch yields no page at first and the two pages of the
  example from the third remote call on.
\<close>

definition late_service :: service where
  "late_service =
     \<lparr>start_query_execution = (\<lambda>t q db out. Inr ''q1''),
      get_query_results = (\<lambda>t qid. Inr (mk_page [])),
      paginate = (\<lambda>t qid. if t < 2 then Inr [] else Inr two_pages),
      put_object = (\<lambda>t bucket key body. None)\<rparr>"

section \<open>Properties\<close>

subsection \<open>The loops of \<open>result\<close> are maps\<close>

lemma foldl_snoc_map: "foldl (\<lambda>acc x. acc @ [f x]) ys xs = ys @ map f xs"
  by (induction xs arbitrary: ys) simp_all

lemma decode_datum_map: "decode_datum d = map (\<lambda>e. get_VarCharValue e []) d"
  unfolding decode_datum_def by (simp add: foldl_snoc_map)

lemma decode_data_map: "decode_data data = map decode_datum data"
  unfolding decode_data_def by (simp add: foldl_snoc_map)

lemma collect_pages: "foldl (\<lambda>acc page. acc @ [page]) [] ps = ps"
  using foldl_snoc_map [of "\<lambda>x. x" "[]" ps] by simp

lemma final_data_of_concat:
  "final_data_of ps = concat (map (\<lambda>p. map (\<lambda>r. decode_datum (Data r)) (Rows (ResultSet p))) ps)"
  unfolding final_data_of_def by (simp add: decode_data_map map_concat comp_def)


subsection \<open>What one call of \<open>result\<close> does\<close>

lemma result_pages:
  assumes "get_query_results svc (ticks w) (query_id self) = Inr qr"
    and "paginate svc (Suc (ticks w)) (query_id self) = Inr ps"
    and "ps \<noteq> []"
  shows "result svc self header w =
    (Inr (next_addr w), self\<lparr>results := Some (next_addr w)\<rparr>,
     w\<lparr>heap := (heap w)(next_addr w := tl (final_data_of ps)),
       next_addr := Suc (next_addr w), ticks := Suc (Suc (ticks w)),
       trace := trace w @ [GetQueryResults (query_id self), Paginate (query_id self)]\<rparr>)"
  using assms
  by (simp add: result_def remote_call_def alloc_def pop0_def collect_pages Let_def)

lemma result_no_pages:
  assumes "get_query_results svc (ticks w) (query_id self) = Inr qr"
    and "paginate svc (Suc (ticks w)) (query_id self) = Inr []"
  shows "result svc self header w =
    (Inr (next_addr w), self,
     w\<lparr>heap := (heap w)(next_addr w := []),
       next_addr := Suc (next_addr w), ticks := Suc (Suc (ticks w)),
       trace := trace w @ [GetQueryResults (query_id self), Paginate (query_id self)]\<rparr>)"
  using assms
  by (simp add: result_def remote_call_def alloc_def Let_def)

subsection \<open>The poll loop\<close>

lemma poll_first_success:
  "(\<forall>k<n. isl (get_query_results svc (ticks w + k) qid)) \<Longrightarrow>
   \<not> isl (get_query_results svc (ticks w + n) qid) \<Longrightarrow>
   poll svc qid w =
     Some (w\<lparr>ticks := ticks w + n + 1,
            trace := trace w @ retries qid n @ [GetQueryResults qid]\<rparr>)"
proof (induction n arbitrary: w)
  case 0
  then obtain p where "get_query_results svc (ticks w) qid = Inr p"
    by (cases "get_query_results svc (ticks w) qid") simp_all
  then show ?case
    by (subst poll.simps) (simp add: remote_call_def retries_def)
next
  case (Suc n)
  let ?w = "sleep 10 (remote_call (GetQueryResults qid) w)"
  from Suc.prems(1) have "isl (get_query_results svc (ticks w + 0) qid)"
    by blast
  then obtain e where e: "get_query_results svc (ticks w) qid = Inl e"
    by (cases "get_query_results svc (ticks w) qid") simp_all
  have t: "ticks ?w = Suc (ticks w)"
    by (simp add: sleep_def remote_call_def)
  have "\<forall>k<n. isl (get_query_results svc (ticks ?w + k) qid)"
    using Suc.prems(1) t by (metis Suc_less_eq add_Suc add_Suc_right)
  moreover have "\<not> isl (get_query_results svc (ticks ?w + n) qid)"
    using Suc.prems(2) t by simp
  ultimately have "poll svc qid ?w =
     Some (?w\<lparr>ticks := ticks ?w + n + 1,
            trace := trace ?w @ retries qid n @ [GetQueryResults qid]\<rparr>)"
    by (rule Suc.IH)
  then show ?case
    using e by (subst poll.simps) (simp add: sleep_def remote_call_def retries_def)
qed

lemma poll_Some_success:
  "poll svc qid w = Some w' \<Longrightarrow> \<exists>k. \<not> isl (get_query_results svc (ticks w + k) qid)"
proof (induction rule: poll.raw_induct[rotated 1, consumes 1])
  case (1 poll svc qid w w')
  show ?case
  proof (cases "get_query_results svc (ticks w) qid")
    case (Inl e)
    with 1(2) have "poll svc qid (sleep 10 (remote_call (GetQueryResults qid) w)) = Some w'"
      by simp
    from 1(1)[OF this] obtain k where
      "\<not> isl (get_query_results svc (ticks (sleep 10 (remote_call (GetQueryResults qid) w)) + k) qid)"
      by blast
    then have "\<not> isl (get_query_results svc (ticks w + Suc k) qid)"
      by (simp add: sleep_def remote_call_def)
    then show ?thesis by blast
  next
    case (Inr p)
    then have "\<not> isl (get_query_results svc (ticks w + 0) qid)" by simp
    then show ?thesis by blast
  qed
qed

lemma poll_never:
  "(\<forall>k. isl (get_query_results svc (ticks w + k) qid)) \<Longrightarrow> poll svc qid w = None"
  using poll_Some_success [of svc qid w] by (cases "poll svc qid w") auto

subsection \<open>Claim C4: the poll phase of \<open>Athena.query\<close>\<close>

text \<open>
  C4. When the submission succeeds, \<open>query\<close> sleeps 3 seconds and then checks readiness.
  Every exception of the check is caught and followed by a sleep of 10 seconds and
  another check: if the first \<open>n\<close> checks raise and the next one succeeds, \<open>query\<close>
  returns after exactly those \<open>n + 1\<close> checks, for any \<open>n\<close> (there is no maximum); if
  every check raises, \<open>query\<close> never returns. Nothing but the success of a check ends
  the loop.
\<close>

theorem query_polls_until_first_success:
  "start_query_execution svc (ticks w) q (database self) (s3_path self) = Inr qid \<longrightarrow>
   ((\<forall>k<n. isl (get_query_results svc (ticks w + 1 + k) qid)) \<and>
    \<not> isl (get_query_results svc (ticks w + 1 + n) qid) \<longrightarrow>
      (\<exists>w'. query svc self q w =
               Some (Inr (AthenaResult_init (database self) qid (s3_path self)), w') \<and>
             trace w' = trace w @ [StartQueryExecution q (database self) (s3_path self), Sleep 3]
                          @ retries qid n @ [GetQueryResults qid])) \<and>
   ((\<forall>k. isl (get_query_results svc (ticks w + 1 + k) qid)) \<longrightarrow> query svc self q w = None)"
proof (intro impI conjI)
  assume s: "start_query_execution svc (ticks w) q (database self) (s3_path self) = Inr qid"
  let ?w1 = "sleep 3 (remote_call (StartQueryExecution q (database self) (s3_path self)) w)"
  have t: "ticks ?w1 = ticks w + 1"
    by (simp add: sleep_def remote_call_def)
  {
    assume "(\<forall>k<n. isl (get_query_results svc (ticks w + 1 + k) qid)) \<and>
            \<not> isl (get_query_results svc (ticks w + 1 + n) qid)"
    then have "poll svc qid ?w1 =
       Some (?w1\<lparr>ticks := ticks ?w1 + n + 1,
                trace := trace ?w1 @ retries qid n @ [GetQueryResults qid]\<rparr>)"
      using t by (intro poll_first_success) simp_all
    then show "\<exists>w'. query svc self q w =
               Some (Inr (AthenaResult_init (database self) qid (s3_path self)), w') \<and>
             trace w' = trace w @ [StartQueryExecution q (database self) (s3_path self), Sleep 3]
                          @ retries qid n @ [GetQueryResults qid]"
      using s by (simp add: query_def Let_def sleep_def remote_call_def)
  }
  {
    assume "\<forall>k. isl (get_query_results svc (ticks w + 1 + k) qid)"
    then have "poll svc qid ?w1 = None"
      using t by (intro poll_never) simp
    then show "query svc self q w = None"
      using s by (simp add: query_def Let_def)
  }
qed

theorem query_polls_until_first_success_witness:
  "(\<exists>w'. query (slow_service 3) athena0 ''SELECT 1'' world0 =
            Some (Inr (AthenaResult_init ''default'' ''q1'' ''s3://cmathenalogs/''), w') \<and>
          trace w' = [StartQueryExecution ''SELECT 1'' ''default'' ''s3://cmathenalogs/'', Sleep 3,
                      GetQueryResults ''q1'', Sleep 10, GetQueryResults ''q1'', Sleep 10,
                      GetQueryResults ''q1'']) \<and>
   query failed_service athena0 ''SELECT 1'' world0 = None"
proof -
  have a: "\<forall>k<2. isl (get_query_results (slow_service 3) (ticks world0 + 1 + k) ''q1'')"
    by (simp add: slow_service_def world0_def)
  have b: "\<not> isl (get_query_results (slow_service 3) (ticks world0 + 1 + 2) ''q1'')"
    by (simp add: slow_service_def world0_def)
  have c: "\<forall>k. isl (get_query_results failed_service (ticks world0 + 1 + k) ''q1'')"
    by (simp add: failed_service_def)
  have r: "retries ''q1'' 2 = [GetQueryResults ''q1'', Sleep 10, GetQueryResults ''q1'', Sleep 10]"
    by (simp add: retries_def numeral_2_eq_2)
  show ?thesis
    using query_polls_until_first_success
            [of "slow_service 3" world0 "''SELECT 1''" athena0 "''q1''" 2] a b
          query_polls_until_first_success
            [of failed_service world0 "''SELECT 1''" athena0 "''q1''" 0] c
    by (simp add: r athena0_def world0_def slow_service_def failed_service_def)
qed

subsection \<open>Remote calls of \<open>result\<close> and \<open>to_string\<close>\<close>

lemma result_first_event:
  "result svc self header w = (r, self', w') \<Longrightarrow>
   \<exists>rest. trace w' = trace w @ GetQueryResults (query_id self) # rest"
  by (auto simp: result_def Let_def remote_call_def alloc_def pop0_def
           split: sum.splits prod.splits if_splits)

lemma result_ticks:
  "result svc self header w = (r, self', w') \<Longrightarrow> ticks w < ticks w'"
  by (auto simp: result_def Let_def remote_call_def alloc_def pop0_def
           split: sum.splits prod.splits if_splits)

lemma to_string_cached:
  "results self = Some a \<Longrightarrow>
   to_string svc self delim w =
     (Inr (join [newline] (map (join delim) (heap w a)) @ [newline]),
      self\<lparr>results_str := Some (join [newline] (map (join delim) (heap w a)) @ [newline])\<rparr>, w)"
  by (simp add: to_string_def Let_def)

subsection \<open>The example of two pages\<close>

lemma two_pages_final_data:
  "final_data_of two_pages = [[''a'', ''b''], [''1'', ''2''], [''3'', ''4'']]"
  by (simp add: final_data_of_concat two_pages_def mk_page_def mk_row_def mk_cell_def
        decode_datum_map get_VarCharValue_def)

lemma two_pages_result:
  "result (stable_service two_pages) ar0 header world0 =
     (Inr 0, ar0\<lparr>results := Some 0\<rparr>,
      world0\<lparr>heap := (heap world0)(0 := [[''1'', ''2''], [''3'', ''4'']]),
        next_addr := Suc 0, ticks := Suc (Suc 0),
        trace := [GetQueryResults ''q1'', Paginate ''q1'']\<rparr>)"
proof -
  have g: "get_query_results (stable_service two_pages) (ticks world0) (query_id ar0)
             = Inr (hd two_pages)"
    by (simp add: stable_service_def two_pages_def)
  have p: "paginate (stable_service two_pages) (Suc (ticks world0)) (query_id ar0) = Inr two_pages"
    by (simp add: stable_service_def)
  have n: "two_pages \<noteq> []"
    by (simp add: two_pages_def)
  show ?thesis
    using result_pages [OF g p n, of header]
    by (simp add: two_pages_final_data world0_def ar0_def AthenaResult_init_def)
qed

subsection \<open>Claim C6: no page, no row\<close>

text \<open>
  C6. When the readiness check succeeds and the paginated fetch yields no page,
  \<open>result\<close> returns an empty list, whatever the value of \<open>header\<close>.
\<close>

theorem result_zero_pages_empty:
  "get_query_results svc (ticks w) (query_id self) = Inr qr \<Longrightarrow>
   paginate svc (Suc (ticks w)) (query_id self) = Inr [] \<Longrightarrow>
   \<exists>a self' w'. result svc self header w = (Inr a, self', w') \<and> heap w' a = []"
  by (simp add: result_no_pages)

theorem result_zero_pages_empty_witness:
  "(\<exists>a self' w'. result (stable_service []) ar0 True world0 = (Inr a, self', w') \<and> heap w' a = []) \<and>
   (\<exists>a self' w'. result (stable_service []) ar0 False world0 = (Inr a, self', w') \<and> heap w' a = [])"
  using result_zero_pages_empty [of "stable_service []" world0 ar0 "mk_page []" True]
        result_zero_pages_empty [of "stable_service []" world0 ar0 "mk_page []" False]
  by (simp add: stable_service_def)

subsection \<open>Claim C7: the example of the specification\<close>

text \<open>
  C7. The service returns two pages, the first with the rows \<open>["a","b"]\<close>, \<open>["1","2"]\<close>,
  the second with the row \<open>["3","4"]\<close>. Then \<open>result(header=False)\<close> returns
  \<open>[["1","2"],["3","4"]]\<close> and \<open>to_string()\<close>, called next with its default
  delimiter, returns \<open>"1\t2\n3\t4\n"\<close>.
\<close>

theorem example_two_pages:
  "fst (result (stable_service two_pages) ar0 False world0) = Inr 0 \<and>
   heap (snd (snd (result (stable_service two_pages) ar0 False world0))) 0 =
     [[''1'', ''2''], [''3'', ''4'']] \<and>
   fst (to_string (stable_service two_pages)
          (fst (snd (result (stable_service two_pages) ar0 False world0))) [tab]
          (snd (snd (result (stable_service two_pages) ar0 False world0)))) =
     Inr [CHR ''1'', tab, CHR ''2'', newline, CHR ''3'', tab, CHR ''4'', newline]"
  by (simp add: two_pages_result to_string_cached)

subsection \<open>Splitting what \<open>join\<close> joined\<close>

lemma py_split_not_Nil: "py_split c s \<noteq> []"
  by (induction s) (auto split: list.splits)

lemma py_split_no_sep: "c \<notin> set x \<Longrightarrow> py_split c x = [x]"
  by (induction x) auto

lemma py_split_append: "c \<notin> set x \<Longrightarrow> py_split c (x @ c # s) = x # py_split c s"
  by (induction x) (auto split: list.splits simp: py_split_not_Nil)

lemma py_split_join:
  "xs \<noteq> [] \<Longrightarrow> \<forall>x\<in>set xs. c \<notin> set x \<Longrightarrow> py_split c (join [c] xs) = xs"
  by (induction "[c]" xs rule: join.induct) (simp_all add: py_split_no_sep py_split_append)

lemma py_split_join_trailing:
  "xs \<noteq> [] \<Longrightarrow> \<forall>x\<in>set xs. c \<notin> set x \<Longrightarrow> py_split c (join [c] xs @ [c]) = xs @ [[]]"
  by (induction "[c]" xs rule: join.induct) (simp_all add: py_split_append)

lemma set_join: "set (join sep xs) \<subseteq> set sep \<union> \<Union> (set ` set xs)"
  by (induction sep xs rule: join.induct) auto

lemma to_string_output:
  "to_string svc self delim w = (Inr out, self', w') \<Longrightarrow>
   \<exists>a. results self' = Some a \<and> results_str self' = Some out \<and>
       out = join [newline] (map (join delim) (heap w' a)) @ [newline]"
  by (auto simp: to_string_def Let_def split: option.splits sum.splits prod.splits)

lemma read_back_to_string:
  assumes "d \<noteq> newline" and "rs \<noteq> []"
    and "\<forall>r\<in>set rs. r \<noteq> [] \<and> (\<forall>c\<in>set r. d \<notin> set c \<and> newline \<notin> set c)"
  shows "read_back d (join [newline] (map (join [d]) rs) @ [newline]) = rs"
proof -
  have nl: "\<forall>l\<in>set (map (join [d]) rs). newline \<notin> set l"
  proof
    fix l assume "l \<in> set (map (join [d]) rs)"
    then obtain r where r: "r \<in> set rs" and l: "l = join [d] r" by auto
    have "set l \<subseteq> set [d] \<union> \<Union> (set ` set r)"
      unfolding l by (rule set_join)
    with assms(1,3) r show "newline \<notin> set l" by auto
  qed
  have "py_split newline (join [newline] (map (join [d]) rs) @ [newline]) = map (join [d]) rs @ [[]]"
    using assms(2) nl by (intro py_split_join_trailing) simp_all
  then have "read_back d (join [newline] (map (join [d]) rs) @ [newline])
               = map (py_split d) (map (join [d]) rs)"
    by (simp add: read_back_def)
  also have "\<dots> = map (\<lambda>r. r) rs"
    unfolding map_map
  proof (rule map_cong [OF refl])
    fix r assume "r \<in> set rs"
    with assms(3) show "(py_split d \<circ> join [d]) r = r"
      by (simp add: py_split_join)
  qed
  finally show ?thesis by simp
qed

lemma py_split_length: "length (py_split c s) = Suc (count_list s c)"
  by (induction s) (auto split: list.splits simp: py_split_not_Nil)

lemma count_list_join:
  "count_list (join sep xs) c =
     sum_list (map (\<lambda>x. count_list x c) xs) + (length xs - 1) * count_list sep c"
  by (induction sep xs rule: join.induct) simp_all

lemma sum_list_count_zero:
  "sum_list (map (\<lambda>x. count_list x c) xs) = 0 \<longleftrightarrow> (\<forall>x\<in>set xs. c \<notin> set x)"
  by (induction xs) (auto simp: count_list_0_iff)

lemma py_split_join_only_if:
  assumes "py_split c (join [c] r) = r"
  shows "r \<noteq> [] \<and> (\<forall>x\<in>set r. c \<notin> set x)"
proof -
  have "length (py_split c (join [c] r)) = length r"
    using assms by simp
  then have len: "Suc (sum_list (map (\<lambda>x. count_list x c) r) + (length r - 1)) = length r"
    by (simp add: py_split_length count_list_join)
  then have ne: "r \<noteq> []"
    by auto
  then have "length r - 1 + 1 = length r"
    by (cases r) simp_all
  with len have "sum_list (map (\<lambda>x. count_list x c) r) = 0"
    by linarith
  then have "\<forall>x\<in>set r. c \<notin> set x"
    by (simp only: sum_list_count_zero)
  with ne show ?thesis
    by blast
qed

lemma set_join_cells: "x \<in> set xs \<Longrightarrow> set x \<subseteq> set (join sep xs)"
  by (induction sep xs rule: join.induct) auto

lemma read_back_only_if:
  assumes "d \<noteq> newline"
    and "read_back d (join [newline] (map (join [d]) rs) @ [newline]) = rs"
  shows "rs \<noteq> [] \<and> (\<forall>r\<in>set rs. r \<noteq> [] \<and> (\<forall>c\<in>set r. d \<notin> set c \<and> newline \<notin> set c))"
proof -
  let ?lines = "map (join [d]) rs"
  let ?out = "join [newline] ?lines @ [newline]"
  have "length (butlast (py_split newline ?out)) = length rs"
    using assms(2) by (metis length_map read_back_def)
  then have len: "sum_list (map (\<lambda>l. count_list l newline) ?lines) + (length rs - 1) + 1 = length rs"
    by (simp add: py_split_length count_list_join)
  then have ne: "rs \<noteq> []"
    by auto
  then have "length rs - 1 + 1 = length rs"
    by (cases rs) simp_all
  with len have "sum_list (map (\<lambda>l. count_list l newline) ?lines) = 0"
    by linarith
  then have nl: "\<forall>l\<in>set ?lines. newline \<notin> set l"
    by (simp only: sum_list_count_zero)
  have "py_split newline ?out = ?lines @ [[]]"
    using ne nl by (intro py_split_join_trailing) simp_all
  then have "read_back d ?out = map (py_split d) ?lines"
    by (simp add: read_back_def)
  with assms(2) have m: "map (\<lambda>r. py_split d (join [d] r)) rs = map (\<lambda>r. r) rs"
    by (simp add: comp_def)
  have "r \<noteq> [] \<and> (\<forall>c\<in>set r. d \<notin> set c \<and> newline \<notin> set c)" if r: "r \<in> set rs" for r
  proof -
    from m r have "py_split d (join [d] r) = r"
      by (simp only: map_eq_conv)
    then have a: "r \<noteq> [] \<and> (\<forall>x\<in>set r. d \<notin> set x)"
      by (rule py_split_join_only_if)
    have "newline \<notin> set (join [d] r)"
      using nl r by simp
    then have "\<forall>c\<in>set r. newline \<notin> set c"
      using set_join_cells [of _ r "[d]"] by blast
    with a show ?thesis by blast
  qed
  with ne show ?thesis by blast
qed

lemma join_ends_with_sep:
  "(join [c] xs \<noteq> [] \<and> last (join [c] xs) = c) \<longleftrightarrow>
     (2 \<le> length xs \<and> last xs = []) \<or> (xs \<noteq> [] \<and> last xs \<noteq> [] \<and> last (last xs) = c)"
proof (induction "[c]" xs rule: join.induct)
  case 1
  then show ?case by simp
next
  case (2 x)
  then show ?case by auto
next
  case (3 x y ys)
  show ?case
  proof (cases "join [c] (y # ys) = []")
    case True
    then have "ys = [] \<and> y = []"
      by (cases ys) auto
    then show ?thesis by simp
  next
    case False
    then have "y # ys \<noteq> [[]]"
      by auto
    then have l: "last (y # ys) = [] \<longrightarrow> 2 \<le> length (y # ys)"
      by (cases ys) auto
    have "last (join [c] (x # y # ys)) = last (join [c] (y # ys))"
      using False by simp
    with 3 False l show ?thesis
      by auto
  qed
qed

lemma two_newlines_iff:
  "(\<exists>body. s @ [c] = body @ [c, c]) \<longleftrightarrow> s \<noteq> [] \<and> last s = c"
proof
  assume "\<exists>body. s @ [c] = body @ [c, c]"
  then obtain body where "s @ [c] = (body @ [c]) @ [c]" by auto
  then have "s = body @ [c]" by (simp only: append_same_eq)
  then show "s \<noteq> [] \<and> last s = c" by simp
next
  assume "s \<noteq> [] \<and> last s = c"
  then have "s = butlast s @ [c]"
    by (metis append_butlast_last_id)
  then have "s @ [c] = butlast s @ [c, c]"
    by (metis append.assoc append_Cons append_Nil)
  then show "\<exists>body. s @ [c] = body @ [c, c]" by blast
qed

subsection \<open>Calls against a service that never changes\<close>

lemma stable_result:
  assumes "ps \<noteq> []"
  shows "result (stable_service ps) ar0 header world0 =
     (Inr 0, ar0\<lparr>results := Some 0\<rparr>,
      world0\<lparr>heap := (heap world0)(0 := tl (final_data_of ps)),
        next_addr := Suc 0, ticks := Suc (Suc 0),
        trace := [GetQueryResults ''q1'', Paginate ''q1'']\<rparr>)"
proof -
  have g: "get_query_results (stable_service ps) (ticks world0) (query_id ar0) = Inr (hd ps)"
    using assms by (cases ps) (simp_all add: stable_service_def)
  have p: "paginate (stable_service ps) (Suc (ticks world0)) (query_id ar0) = Inr ps"
    by (simp add: stable_service_def)
  show ?thesis
    using result_pages [OF g p assms, of header]
    by (simp add: world0_def ar0_def AthenaResult_init_def)
qed

lemma stable_to_string:
  assumes "ps \<noteq> []"
  shows "fst (to_string (stable_service ps) ar0 delim world0) =
           Inr (join [newline] (map (join delim) (tl (final_data_of ps))) @ [newline])"
    and "results (fst (snd (to_string (stable_service ps) ar0 delim world0))) = Some 0"
    and "heap (snd (snd (to_string (stable_service ps) ar0 delim world0))) 0 = tl (final_data_of ps)"
proof -
  have n: "results ar0 = None"
    by (simp add: ar0_def AthenaResult_init_def)
  show "fst (to_string (stable_service ps) ar0 delim world0) =
           Inr (join [newline] (map (join delim) (tl (final_data_of ps))) @ [newline])"
    by (simp add: to_string_def n stable_result [OF assms] Let_def)
  show "results (fst (snd (to_string (stable_service ps) ar0 delim world0))) = Some 0"
    by (simp add: to_string_def n stable_result [OF assms] Let_def)
  show "heap (snd (snd (to_string (stable_service ps) ar0 delim world0))) 0 = tl (final_data_of ps)"
    by (simp add: to_string_def n stable_result [OF assms] Let_def)
qed

lemma header_only_final_data: "final_data_of header_only = [[''c'']]"
  by (simp add: final_data_of_concat header_only_def mk_page_def mk_row_def mk_cell_def
        decode_datum_map get_VarCharValue_def)

lemma null_last_final_data: "final_data_of null_last = [[''c''], [''x''], [[]]]"
  by (simp add: final_data_of_concat null_last_def mk_row_def mk_cell_def
        decode_datum_map get_VarCharValue_def)

lemma one_page_final_data: "final_data_of one_page = [[''a'', ''b''], [''1'', ''2'']]"
  by (simp add: final_data_of_concat one_page_def mk_page_def mk_row_def mk_cell_def
        decode_datum_map get_VarCharValue_def)

subsection \<open>The rows \<open>result\<close> returns\<close>



lemma result_returned_rows:
  assumes "get_query_results svc (ticks w) (query_id self) = Inr qr"
    and "paginate svc (Suc (ticks w)) (query_id self) = Inr ps"
  shows "\<exists>self' w'. result svc self header w = (Inr (next_addr w), self', w') \<and>
           heap w' (next_addr w) = tl (final_data_of ps)"
proof (cases "ps = []")
  case True
  then show ?thesis
    using result_no_pages [OF assms(1), of header] assms(2)
    by (simp add: final_data_of_concat)
next
  case False
  then show ?thesis
    using result_pages [OF assms False, of header] by simp
qed

lemma result_ready_trace:
  "get_query_results svc (ticks w) (query_id self) = Inr qr \<Longrightarrow>
   trace (snd (snd (result svc self header w))) =
     trace w @ [GetQueryResults (query_id self), Paginate (query_id self)]"
  by (auto simp: result_def Let_def remote_call_def alloc_def pop0_def
           split: sum.splits prod.splits if_splits)

subsection \<open>Claim C1: the argument \<open>header\<close>\<close>

text \<open>
  C1 says that \<open>result(header=True)\<close> returns all decoded rows, the first included,
  and one row more than \<open>result(header=False)\<close>. The body of \<open>result\<close> never
  reads \<open>header\<close> and pops the first row in both cases: on one page with the rows
  \<open>["a","b"]\<close> and \<open>["1","2"]\<close> both calls return \<open>[["1","2"]]\<close>, while
  \<open>_format_results\<close> keeps the first row unless \<open>header == False\<close>.
\<close>

theorem result_header_ignored_example:
  "fst (result (stable_service one_page) ar0 True world0) = Inr 0 \<and>
   heap (snd (snd (result (stable_service one_page) ar0 True world0))) 0 = [[''1'', ''2'']] \<and>
   heap (snd (snd (result (stable_service one_page) ar0 False world0))) 0 = [[''1'', ''2'']] \<and>
   format_results (hd one_page) True = Inr [[''a'', ''b''], [''1'', ''2'']] \<and>
   format_results (hd one_page) False = Inr [[''1'', ''2'']]"
proof -
  have n: "one_page \<noteq> []"
    by (simp add: one_page_def)
  have f: "format_results (hd one_page) True = Inr [[''a'', ''b''], [''1'', ''2'']]"
          "format_results (hd one_page) False = Inr [[''1'', ''2'']]"
    by (simp_all add: format_results_def one_page_def mk_page_def mk_row_def mk_cell_def)
  show ?thesis
    by (simp add: stable_result [OF n] one_page_final_data f)
qed

subsection \<open>Claim C2: which calls reach the service\<close>




subsection \<open>Claim C3: reading the delimited string back\<close>

text \<open>
  A result with a header row only leaves no cached row: \<open>to_string\<close> returns one
  newline, which reads back as one row of one empty cell, not as no row. And when the
  last cached row is a single empty cell the output ends with two newlines.
\<close>

theorem to_string_read_back_counterexample:
  "fst (to_string (stable_service header_only) ar0 [tab] world0) = Inr [newline] \<and>
   heap (snd (snd (to_string (stable_service header_only) ar0 [tab] world0))) 0 = [] \<and>
   read_back tab [newline] = [[[]]] \<and>
   read_back tab [newline] \<noteq>
     heap (snd (snd (to_string (stable_service header_only) ar0 [tab] world0))) 0 \<and>
   fst (to_string (stable_service null_last) ar0 [tab] world0) = Inr [CHR ''x'', newline, newline]"
proof -
  have a: "header_only \<noteq> []"
    by (simp add: header_only_def)
  have b: "null_last \<noteq> []"
    by (simp add: null_last_def)
  have r: "read_back tab [newline] = [[[]]]"
    by (simp add: read_back_def)
  show ?thesis
    by (simp add: stable_to_string [OF a] stable_to_string [OF b] header_only_final_data
          null_last_final_data r)
qed

text \<open>
  C3, as the code has it. The output of \<open>to_string\<close> is the lines, each the cells of
  a row joined by the delimiter, joined by newlines and followed by one newline. It ends
  with exactly one newline unless there are two or more rows and the last line is empty,
  or the last line ends with a newline. For a delimiter of one character other than the
  newline, splitting the output on the newline, dropping the final segment and splitting
  each line on the delimiter gives the rows back if and only if there is at least one
  row, every row has at least one cell, and no cell contains the delimiter or a newline.
\<close>

theorem to_string_read_back:
  assumes "to_string svc self delim w = (Inr out, self', w')"
  shows "\<exists>a. results self' = Some a \<and>
           out = join [newline] (map (join delim) (heap w' a)) @ [newline] \<and>
           ((\<exists>body. out = body @ [newline, newline]) \<longleftrightarrow>
              (2 \<le> length (heap w' a) \<and> join delim (last (heap w' a)) = []) \<or>
              (heap w' a \<noteq> [] \<and> join delim (last (heap w' a)) \<noteq> [] \<and>
               last (join delim (last (heap w' a))) = newline)) \<and>
           (\<forall>d. delim = [d] \<and> d \<noteq> newline \<longrightarrow>
              (read_back d out = heap w' a \<longleftrightarrow>
                 heap w' a \<noteq> [] \<and>
                 (\<forall>r\<in>set (heap w' a). r \<noteq> [] \<and> (\<forall>c\<in>set r. d \<notin> set c \<and> newline \<notin> set c))))"
proof -
  from to_string_output [OF assms] obtain a where
    a: "results self' = Some a"
    and out: "out = join [newline] (map (join delim) (heap w' a)) @ [newline]"
    by blast
  let ?rs = "heap w' a"
  have two: "(\<exists>body. out = body @ [newline, newline]) \<longleftrightarrow>
              (2 \<le> length ?rs \<and> join delim (last ?rs) = []) \<or>
              (?rs \<noteq> [] \<and> join delim (last ?rs) \<noteq> [] \<and> last (join delim (last ?rs)) = newline)"
    unfolding out two_newlines_iff join_ends_with_sep
    by (cases "?rs = []") (simp_all add: last_map)
  have rb: "read_back d out = ?rs \<longleftrightarrow>
              ?rs \<noteq> [] \<and> (\<forall>r\<in>set ?rs. r \<noteq> [] \<and> (\<forall>c\<in>set r. d \<notin> set c \<and> newline \<notin> set c))"
    if "delim = [d]" and "d \<noteq> newline" for d
    using read_back_only_if [OF that(2), of ?rs] read_back_to_string [OF that(2), of ?rs]
    unfolding out that(1) by blast
  from a out two rb show ?thesis
    by blast
qed

theorem to_string_read_back_witness:
  "fst (to_string (stable_service two_pages) ar0 [tab] world0) =
     Inr [CHR ''1'', tab, CHR ''2'', newline, CHR ''3'', tab, CHR ''4'', newline] \<and>
   read_back tab [CHR ''1'', tab, CHR ''2'', newline, CHR ''3'', tab, CHR ''4'', newline] =
     [[''1'', ''2''], [''3'', ''4'']] \<and>
   \<not> (\<exists>body. [CHR ''1'', tab, CHR ''2'', newline, CHR ''3'', tab, CHR ''4'', newline] =
               body @ [newline, newline])"
proof -
  let ?T = "to_string (stable_service two_pages) ar0 [tab] world0"
  let ?out = "[CHR ''1'', tab, CHR ''2'', newline, CHR ''3'', tab, CHR ''4'', newline]"
  let ?rs = "[[''1'', ''2''], [''3'', ''4'']]"
  have ne: "two_pages \<noteq> []"
    by (simp add: two_pages_def)
  have o: "fst ?T = Inr ?out"
    by (simp add: stable_to_string(1) [OF ne] two_pages_final_data)
  have h1: "?T = (Inr ?out, fst (snd ?T), snd (snd ?T))"
    using o by (cases ?T) simp
  have h2: "results (fst (snd ?T)) = Some 0"
    by (rule stable_to_string(2) [OF ne])
  have rows: "heap (snd (snd ?T)) 0 = ?rs"
    by (simp add: stable_to_string(3) [OF ne] two_pages_final_data)
  have d: "tab \<noteq> newline"
    by (simp add: tab_def newline_def)
  have cells: "?rs \<noteq> [] \<and> (\<forall>r\<in>set ?rs. r \<noteq> [] \<and> (\<forall>c\<in>set r. tab \<notin> set c \<and> newline \<notin> set c))"
    by (simp add: tab_def newline_def)
  have lastline: "\<not> (2 \<le> length ?rs \<and> join [tab] (last ?rs) = []) \<and>
        \<not> (?rs \<noteq> [] \<and> join [tab] (last ?rs) \<noteq> [] \<and> last (join [tab] (last ?rs)) = newline)"
    by (simp add: tab_def newline_def)
  from to_string_read_back [OF h1] h2 rows
  have iff2: "(\<exists>body. ?out = body @ [newline, newline]) \<longleftrightarrow>
              (2 \<le> length ?rs \<and> join [tab] (last ?rs) = []) \<or>
              (?rs \<noteq> [] \<and> join [tab] (last ?rs) \<noteq> [] \<and> last (join [tab] (last ?rs)) = newline)"
    and rb: "\<forall>d. [tab] = [d] \<and> d \<noteq> newline \<longrightarrow>
              (read_back d ?out = ?rs \<longleftrightarrow>
                 ?rs \<noteq> [] \<and> (\<forall>r\<in>set ?rs. r \<noteq> [] \<and> (\<forall>c\<in>set r. d \<notin> set c \<and> newline \<notin> set c)))"
    by auto
  from rb d cells have "read_back tab ?out = ?rs"
    by blast
  moreover from iff2 lastline have "\<not> (\<exists>body. ?out = body @ [newline, newline])"
    by blast
  ultimately show ?thesis
    using o by blast
qed

subsection \<open>Claim C5: a missing cell text\<close>



subsection \<open>Claim C8: the order of the rows\<close>



subsection \<open>Claim C9: the cached list is the returned list\<close>

text \<open>
  C9. When \<open>result\<close> decodes at least one row, the reference it stores in
  \<open>self.results\<close> is the reference it returns, and the list object behind it has lost
  its first row, whatever \<open>header\<close> is. A call of \<open>to_string\<close> after it formats
  those rows without a remote call, and \<open>to_s3\<close>, when no string was cached before,
  uploads the string of those rows.
\<close>

theorem result_caches_the_popped_list:
  assumes "get_query_results svc (ticks w) (query_id self) = Inr qr"
    and "paginate svc (Suc (ticks w)) (query_id self) = Inr ps"
    and "final_data_of ps \<noteq> []"
  shows "\<exists>a self' w'. result svc self header w = (Inr a, self', w') \<and>
           results self' = Some a \<and>
           heap w' a = tl (final_data_of ps) \<and>
           fst (to_string svc self' delim w') =
             Inr (join [newline] (map (join delim) (tl (final_data_of ps))) @ [newline]) \<and>
           snd (snd (to_string svc self' delim w')) = w' \<and>
           (results_str self = None \<longrightarrow>
              snd (snd (to_s3 svc self' bucket file_name w')) =
                remote_call (PutObject bucket file_name
                  (join [newline] (map (join [tab]) (tl (final_data_of ps))) @ [newline])) w')"
proof -
  have ne: "ps \<noteq> []"
    using assms(3) by (auto simp: final_data_of_concat)
  let ?a = "next_addr w"
  let ?self' = "self\<lparr>results := Some ?a\<rparr>"
  let ?w' = "w\<lparr>heap := (heap w)(?a := tl (final_data_of ps)),
       next_addr := Suc ?a, ticks := Suc (Suc (ticks w)),
       trace := trace w @ [GetQueryResults (query_id self), Paginate (query_id self)]\<rparr>"
  have r: "result svc self header w = (Inr ?a, ?self', ?w')"
    by (rule result_pages [OF assms(1,2) ne])
  have c: "results ?self' = Some ?a"
    by simp
  have ts: "to_string svc ?self' d ?w' =
     (Inr (join [newline] (map (join d) (tl (final_data_of ps))) @ [newline]),
      ?self'\<lparr>results_str := Some (join [newline] (map (join d) (tl (final_data_of ps))) @ [newline])\<rparr>,
      ?w')" for d
    using to_string_cached [OF c, of svc d ?w'] by simp
  have s3: "results_str self = None \<longrightarrow>
              snd (snd (to_s3 svc ?self' bucket file_name ?w')) =
                remote_call (PutObject bucket file_name
                  (join [newline] (map (join [tab]) (tl (final_data_of ps))) @ [newline])) ?w'"
    by (simp add: to_s3_def ts Let_def split: option.splits)
  show ?thesis
    using r c ts s3 by simp
qed

theorem result_caches_the_popped_list_witness:
  "\<exists>a self' w'. result (stable_service two_pages) ar0 True world0 = (Inr a, self', w') \<and>
     results self' = Some a \<and>
     heap w' a = [[''1'', ''2''], [''3'', ''4'']] \<and>
     fst (to_string (stable_service two_pages) self' [tab] w') =
       Inr [CHR ''1'', tab, CHR ''2'', newline, CHR ''3'', tab, CHR ''4'', newline] \<and>
     snd (snd (to_string (stable_service two_pages) self' [tab] w')) = w' \<and>
     snd (snd (to_s3 (stable_service two_pages) self' ''bucket'' ''key'' w')) =
       remote_call (PutObject ''bucket'' ''key''
         [CHR ''1'', tab, CHR ''2'', newline, CHR ''3'', tab, CHR ''4'', newline]) w'"
proof -
  have g: "get_query_results (stable_service two_pages) (ticks world0) (query_id ar0)
             = Inr (hd two_pages)"
    by (simp add: stable_service_def two_pages_def)
  have p: "paginate (stable_service two_pages) (Suc (ticks world0)) (query_id ar0) = Inr two_pages"
    by (simp add: stable_service_def)
  have n: "final_data_of two_pages \<noteq> []"
    by (simp add: two_pages_final_data)
  have s: "results_str ar0 = None"
    by (simp add: ar0_def AthenaResult_init_def)
  show ?thesis
    using result_caches_the_popped_list [OF g p n, of True "[tab]" "''bucket''" "''key''"] s
    by (simp add: two_pages_final_data)
qed

subsection \<open>Claim C10: an empty fetch is not cached\<close>

lemma to_string_uncached_world:
  "results self = None \<Longrightarrow>
   snd (snd (to_string svc self delim w)) = snd (snd (result svc self True w))"
  by (auto simp: to_string_def Let_def split: sum.splits prod.splits)

lemma to_string_uncached_fetch:
  assumes "results self = None"
    and "get_query_results svc (ticks w) (query_id self) = Inr qr"
    and "paginate svc (Suc (ticks w)) (query_id self) = Inr ps"
  shows "fst (to_string svc self delim w) =
           Inr (join [newline] (map (join delim) (tl (final_data_of ps))) @ [newline])"
proof -
  from result_returned_rows [OF assms(2,3), of True] obtain self' w' where
    "result svc self True w = (Inr (next_addr w), self', w')"
    and "heap w' (next_addr w) = tl (final_data_of ps)"
    by blast
  then show ?thesis
    using assms(1) by (simp add: to_string_def Let_def)
qed

text \<open>
  C10. When the paginated fetch yields no page, \<open>result\<close> returns a new empty list
  and leaves the object as it was, so \<open>self.results\<close> is still \<open>None\<close>. A call of
  \<open>to_string\<close> after it does not use a cached empty result: it does all that a
  fresh call of \<open>result\<close> does, beginning with the readiness check; when that check
  succeeds it issues the check and a paginated fetch, and it formats the rows of the
  pages this new fetch yields.
\<close>

theorem result_zero_pages_leaves_cache_unset:
  assumes "results self = None"
    and "get_query_results svc (ticks w) (query_id self) = Inr qr"
    and "paginate svc (Suc (ticks w)) (query_id self) = Inr []"
  shows "\<exists>a w'. result svc self header w = (Inr a, self, w') \<and> heap w' a = [] \<and>
           results self = None \<and> ticks w' = Suc (Suc (ticks w)) \<and>
           snd (snd (to_string svc self delim w')) = snd (snd (result svc self True w')) \<and>
           (\<exists>rest. trace (snd (snd (to_string svc self delim w'))) =
                     trace w' @ GetQueryResults (query_id self) # rest) \<and>
           ticks w' < ticks (snd (snd (to_string svc self delim w'))) \<and>
           (\<forall>qr'. get_query_results svc (ticks w') (query_id self) = Inr qr' \<longrightarrow>
              trace (snd (snd (to_string svc self delim w'))) =
                trace w' @ [GetQueryResults (query_id self), Paginate (query_id self)]) \<and>
           (\<forall>qr' ps'. get_query_results svc (ticks w') (query_id self) = Inr qr' \<and>
                      paginate svc (Suc (ticks w')) (query_id self) = Inr ps' \<longrightarrow>
              fst (to_string svc self delim w') =
                Inr (join [newline] (map (join delim) (tl (final_data_of ps'))) @ [newline]))"
proof -
  let ?w' = "w\<lparr>heap := (heap w)(next_addr w := []),
       next_addr := Suc (next_addr w), ticks := Suc (Suc (ticks w)),
       trace := trace w @ [GetQueryResults (query_id self), Paginate (query_id self)]\<rparr>"
  let ?T = "to_string svc self delim ?w'"
  have r: "result svc self header w = (Inr (next_addr w), self, ?w')"
    using assms(2,3) by (rule result_no_pages)
  have same: "snd (snd ?T) = snd (snd (result svc self True ?w'))"
    using assms(1) by (rule to_string_uncached_world)
  obtain r1 self1 w1 where r1: "result svc self True ?w' = (r1, self1, w1)"
    by (cases "result svc self True ?w'") auto
  have first: "\<exists>rest. trace (snd (snd ?T)) = trace ?w' @ GetQueryResults (query_id self) # rest"
    using result_first_event [OF r1] same r1 by simp
  have later: "ticks ?w' < ticks (snd (snd ?T))"
    using result_ticks [OF r1] same r1 by simp
  have exact: "\<forall>qr'. get_query_results svc (ticks ?w') (query_id self) = Inr qr' \<longrightarrow>
              trace (snd (snd ?T)) =
                trace ?w' @ [GetQueryResults (query_id self), Paginate (query_id self)]"
    unfolding same by (blast intro: result_ready_trace)
  have fetched: "\<forall>qr' ps'. get_query_results svc (ticks ?w') (query_id self) = Inr qr' \<and>
                      paginate svc (Suc (ticks ?w')) (query_id self) = Inr ps' \<longrightarrow>
              fst ?T = Inr (join [newline] (map (join delim) (tl (final_data_of ps'))) @ [newline])"
    using assms(1) by (blast intro: to_string_uncached_fetch)
  have "result svc self header w = (Inr (next_addr w), self, ?w') \<and> heap ?w' (next_addr w) = [] \<and>
        results self = None \<and> ticks ?w' = Suc (Suc (ticks w))"
    using r assms(1) by simp
  with same first later exact fetched show ?thesis
    by blast
qed

theorem result_zero_pages_leaves_cache_unset_witness:
  "\<exists>a w'. result late_service ar0 True world0 = (Inr a, ar0, w') \<and> heap w' a = [] \<and>
     results ar0 = None \<and>
     trace (snd (snd (to_string late_service ar0 [tab] w'))) =
       [GetQueryResults ''q1'', Paginate ''q1'', GetQueryResults ''q1'', Paginate ''q1''] \<and>
     fst (to_string late_service ar0 [tab] w') =
       Inr [CHR ''1'', tab, CHR ''2'', newline, CHR ''3'', tab, CHR ''4'', newline]"
proof -
  have a: "results ar0 = None"
    by (simp add: ar0_def AthenaResult_init_def)
  have b: "get_query_results late_service (ticks world0) (query_id ar0) = Inr (mk_page [])"
    by (simp add: late_service_def)
  have c: "paginate late_service (Suc (ticks world0)) (query_id ar0) = Inr []"
    by (simp add: late_service_def world0_def)
  from result_zero_pages_leaves_cache_unset [OF a b c, of True "[tab]"]
  obtain x w' where r: "result late_service ar0 True world0 = (Inr x, ar0, w')"
    and h: "heap w' x = []"
    and t: "ticks w' = Suc (Suc (ticks world0))"
    and e: "\<forall>qr'. get_query_results late_service (ticks w') (query_id ar0) = Inr qr' \<longrightarrow>
              trace (snd (snd (to_string late_service ar0 [tab] w'))) =
                trace w' @ [GetQueryResults (query_id ar0), Paginate (query_id ar0)]"
    and f: "\<forall>qr' ps'. get_query_results late_service (ticks w') (query_id ar0) = Inr qr' \<and>
                      paginate late_service (Suc (ticks w')) (query_id ar0) = Inr ps' \<longrightarrow>
              fst (to_string late_service ar0 [tab] w') =
                Inr (join [newline] (map (join [tab]) (tl (final_data_of ps'))) @ [newline])"
    by blast
  have g2: "get_query_results late_service (ticks w') (query_id ar0) = Inr (mk_page [])"
    by (simp add: late_service_def)
  have p2: "paginate late_service (Suc (ticks w')) (query_id ar0) = Inr two_pages"
    by (simp add: late_service_def t)
  have tr: "trace w' = [GetQueryResults ''q1'', Paginate ''q1'']"
    using r result_ready_trace [OF b, of True]
    by (simp add: world0_def ar0_def AthenaResult_init_def)
  have q: "query_id ar0 = ''q1''"
    by (simp add: ar0_def AthenaResult_init_def)
  from e g2 have "trace (snd (snd (to_string late_service ar0 [tab] w'))) =
       [GetQueryResults ''q1'', Paginate ''q1'', GetQueryResults ''q1'', Paginate ''q1'']"
    by (simp add: tr q)
  moreover from f g2 p2 have "fst (to_string late_service ar0 [tab] w') =
       Inr [CHR ''1'', tab, CHR ''2'', newline, CHR ''3'', tab, CHR ''4'', newline]"
    by (simp add: two_pages_final_data)
  ultimately show ?thesis
    using r h a by blast
qed

end
